theory Spec2Isabelle
  imports Main "HOL-Library.Word" "HOL-Library.Sublist"
begin

unbundle bit_operations_syntax

section \<open>The USB access layer as seen by usbmachine.py\<close>

text \<open>
  The program drives a USB device through PyUSB. Everything PyUSB hands back is an input
  of the program: it is fixed by the device record and by the scripts of the state below,
  and every call the program issues is appended to a trace, so that what was (and was not)
  sent to the device can be read off afterwards.
\<close>

type_synonym byte = "8 word"

text \<open>The exceptions the program raises, catches or lets through.\<close>

datatype exn =
    USBError "int option" string
  | ValueError string
  | IndexError
  | TypeError
  | AttributeError
  | EOFError
  | KeyboardInterrupt
  | SystemExit int

text \<open>
  What \<open>ctrl_transfer\<close> returns: an array of bytes for a device-to-host transfer, a
  count of bytes written for a host-to-device transfer. Python decides at run time which
  of the two it got, so the model keeps both under one type.
\<close>

datatype pyval = PInt int | PBytes "byte list"

text \<open>The argument \<open>data_or_wLength\<close> of \<open>ctrl_transfer\<close>.\<close>

datatype payload = WLength nat | WData string

record ctrl_req =
  bmRequestType :: nat
  bRequest :: nat
  wValue :: nat
  wIndex :: nat
  data_or_wLength :: payload
  timeout :: "nat option"

record endpoint =
  bEndpointAddress :: byte

record interface =
  bInterfaceNumber :: nat
  endpoints :: "endpoint list"

text \<open>
  A configuration is the list of its interfaces in iteration order; \<open>cfg[(0, 0)]\<close> is
  the first of them.
\<close>

type_synonym configuration = "interface list"

text \<open>
  A device handle: the place of the device on the bus, and what each of its methods does
  when the program calls it (\<open>None\<close>: returns; \<open>Some e\<close> or \<open>Inl e\<close>: raises \<open>e\<close>).
\<close>

record usb_device =
  path :: nat
  set_configuration :: "exn option"
  ctrl_transfer :: "ctrl_req \<Rightarrow> exn + pyval"
  get_active_configuration :: "exn + configuration"
  detach_kernel_driver :: "nat \<Rightarrow> exn option"
  bulk_write :: "byte \<Rightarrow> string \<Rightarrow> exn option"

text \<open>What \<open>print\<close> is given.\<close>

datatype printed = PStr string | PNum nat | PExn exn

datatype event =
    SetConfiguration
  | CtrlTransfer ctrl_req
  | Sleep nat
  | Find
  | GetActiveConfiguration
  | Read byte nat nat
  | EpWrite byte string
  | DetachKernelDriver nat
  | ConsolePrint string
  | ConsolePrintException exn
  | ConsoleInput string
  | Stdout printed

text \<open>
  One blocking read of the receive loop: it returns an array, or an exception is raised
  in the body of the \<open>try\<close>.
\<close>

datatype read_outcome = ReadReturns "byte list" | ReadRaises exn

text \<open>
  The state: the field \<open>device\<close> of \<open>App\<close>; what a scan of the bus finds; what the
  successive reads and console inputs will deliver; the trace of calls so far.
\<close>

record state =
  device :: "usb_device option"
  bus :: "usb_device option"
  reads :: "read_outcome list"
  inputs :: "(exn + string) list"
  trace :: "event list"

type_synonym 'a action = "state \<Rightarrow> (exn + 'a) \<times> state"

definition emit :: "event \<Rightarrow> state \<Rightarrow> state" where
  "emit ev s = s\<lparr>trace := trace s @ [ev]\<rparr>"

text \<open>The events a run has added to the trace.\<close>

definition new_events :: "state \<Rightarrow> state \<Rightarrow> event list" where
  "new_events s s' = drop (length (trace s)) (trace s')"

text \<open>Sequencing of two statements: the second runs only if the first did not raise.\<close>

definition and_then :: "unit action \<Rightarrow> unit action \<Rightarrow> unit action" where
  "and_then m n s = (case m s of (Inl e, s') \<Rightarrow> (Inl e, s') | (Inr _, s') \<Rightarrow> n s')"

text \<open>\<open>self.device.ctrl_transfer(...)\<close>; on \<open>None\<close> the attribute lookup fails.\<close>

definition device_ctrl_transfer :: "ctrl_req \<Rightarrow> pyval action" where
  "device_ctrl_transfer rq s =
     (case device s of
        None \<Rightarrow> (Inl AttributeError, s)
      | Some d \<Rightarrow> (ctrl_transfer d rq, emit (CtrlTransfer rq) s))"

text \<open>Python's \<open>ret[0]\<close>, truth value and \<open>str\<close> of a natural number.\<close>

definition getitem0 :: "pyval \<Rightarrow> exn + nat" where
  "getitem0 v =
     (case v of
        PInt _ \<Rightarrow> Inl TypeError
      | PBytes [] \<Rightarrow> Inl IndexError
      | PBytes (b # _) \<Rightarrow> Inr (unat b))"

definition truthy :: "pyval \<Rightarrow> bool" where
  "truthy v = (case v of PInt n \<Rightarrow> n \<noteq> 0 | PBytes bs \<Rightarrow> bs \<noteq> [])"

fun str_nat :: "nat \<Rightarrow> string" where
  "str_nat n =
     (if n < 10 then [''0123456789'' ! n]
      else str_nat (n div 10) @ [''0123456789'' ! (n mod 10)])"

declare str_nat.simps [simp del]

section \<open>Negotiation\<close>

definition version_req :: ctrl_req where
  "version_req =
     \<lparr>bmRequestType = 0xC0, bRequest = 51, wValue = 0, wIndex = 0,
      data_or_wLength = WLength 2, timeout = None\<rparr>"

text \<open>
  \<open>set_protocol\<close>. The handler of \<open>USBError\<close> tests \<open>errno == 16\<close>, does nothing in
  that branch, and then re-raises in either case; any other exception is not caught.
\<close>

definition set_protocol :: "unit action" where
  "set_protocol s =
     (case device s of
        None \<Rightarrow> (Inl AttributeError, s)
      | Some d \<Rightarrow>
          (let s1 = emit SetConfiguration s in
           case set_configuration d of
             Some e \<Rightarrow>
               (case e of
                  USBError errno msg \<Rightarrow>
                    (if errno = Some 16 then (Inl e, s1) else (Inl e, s1))
                | _ \<Rightarrow> (Inl e, s1))
           | None \<Rightarrow>
               (case device_ctrl_transfer version_req s1 of
                  (Inl e, s2) \<Rightarrow> (Inl e, s2)
                | (Inr ret, s2) \<Rightarrow>
                    (case getitem0 ret of
                       Inl e \<Rightarrow> (Inl e, s2)
                     | Inr protocol \<Rightarrow>
                         if protocol < 2
                         then (Inl (ValueError (''Protocol version '' @ str_nat protocol
                                                 @ '' < 2 is not supported'')), s2)
                         else (Inr (), s2)))))"

definition string_req :: "nat \<Rightarrow> string \<Rightarrow> ctrl_req" where
  "string_req str_id str_val =
     \<lparr>bmRequestType = 0x40, bRequest = 52, wValue = 0, wIndex = str_id,
      data_or_wLength = WData str_val, timeout = Some 0\<rparr>"

text \<open>\<open>ret != len(str_val)\<close>: an array never equals an integer.\<close>

definition send_string :: "nat \<Rightarrow> string \<Rightarrow> unit action" where
  "send_string str_id str_val s =
     (case device_ctrl_transfer (string_req str_id str_val) s of
        (Inl e, s1) \<Rightarrow> (Inl e, s1)
      | (Inr ret, s1) \<Rightarrow>
          if ret \<noteq> PInt (int (length str_val))
          then (Inl (ValueError ''Received non-valid response''), s1)
          else (Inr (), s1))"

definition send_accessory_parameters :: "unit action" where
  "send_accessory_parameters =
     and_then (send_string 0 ''dvpashkevich'')
    (and_then (send_string 1 ''PyAndroidCompanion'')
    (and_then (send_string 2 ''A Python based Android accessory companion'')
    (and_then (send_string 3 ''0.1.0'')
    (and_then (send_string 4 ''https://github.com/alien-agent/USB-Communicator-Script'')
              (send_string 5 ''0000-0000-0000'')))))"

definition trigger_req :: ctrl_req where
  "trigger_req =
     \<lparr>bmRequestType = 0x40, bRequest = 53, wValue = 0, wIndex = 0,
      data_or_wLength = WData [], timeout = Some 0\<rparr>"

definition set_accessory_mode :: "unit action" where
  "set_accessory_mode s =
     (case device_ctrl_transfer trigger_req s of
        (Inl e, s1) \<Rightarrow> (Inl e, s1)
      | (Inr ret, s1) \<Rightarrow>
          if truthy ret
          then (Inl (ValueError ''Failed to trigger accessory mode''), s1)
          else
            (let s2 = emit (Sleep 1) s1;
                 s3 = emit Find s2
             in case bus s3 of
                  None \<Rightarrow>
                    (Inl (ValueError
                       ''Device gone missing after accessory mode trigger, please restart''),
                     s3)
                | Some dev \<Rightarrow> (Inr (), s3\<lparr>device := Some dev\<rparr>)))"

text \<open>
  \<open>prepare_device\<close>: the three commands in order, each announced on the console; a bare
  \<open>except\<close> turns whatever a command raises into \<open>sys.exit(1)\<close>.
\<close>

fun run_commands :: "(string \<times> unit action) list \<Rightarrow> unit action" where
  "run_commands [] s = (Inr (), s)"
| "run_commands ((command_name, command) # rest) s =
     (let s1 = emit (ConsolePrint (command_name @ ''......... '')) s in
      case command s1 of
        (Inl e, s2) \<Rightarrow>
          (Inl (SystemExit 1),
           emit (ConsolePrintException e) (emit (ConsolePrint ''[bold red]FAIL'') s2))
      | (Inr _, s2) \<Rightarrow> run_commands rest (emit (ConsolePrint ''[bold green]OK'') s2))"

definition prepare_device :: "unit action" where
  "prepare_device =
     run_commands
       [(''Verifying protocol'', set_protocol),
        (''Sending accessory parameters'', send_accessory_parameters),
        (''Triggering accessory mode'', set_accessory_mode)]"

section \<open>Data phase\<close>

text \<open>
  PyUSB's \<open>usb.util\<close>: the direction of an endpoint is bit 7 of its address, and
  \<open>find_descriptor\<close> returns the first descriptor that matches, or \<open>None\<close>.
\<close>

definition ENDPOINT_IN :: byte where
  "ENDPOINT_IN = 0x80"

definition ENDPOINT_OUT :: byte where
  "ENDPOINT_OUT = 0x00"

definition endpoint_direction :: "byte \<Rightarrow> byte" where
  "endpoint_direction address = address AND 0x80"

definition find_descriptor :: "'a list \<Rightarrow> ('a \<Rightarrow> bool) \<Rightarrow> 'a option" where
  "find_descriptor desc custom_match = List.find custom_match desc"

text \<open>
  The endpoint discovery that \<open>accept_data\<close> and \<open>write\<close> both spell out, with the
  direction they look for as a parameter. \<open>cfg[(0, 0)]\<close> of a configuration without
  interfaces raises; \<open>find_descriptor\<close> over \<open>None\<close> raises as well.
\<close>

definition find_endpoint :: "byte \<Rightarrow> configuration \<Rightarrow> exn + endpoint option" where
  "find_endpoint direction cfg =
     (case cfg of
        [] \<Rightarrow> Inl IndexError
      | i0 # _ \<Rightarrow>
          (let if_num = bInterfaceNumber i0;
               intf = find_descriptor cfg (\<lambda>i. bInterfaceNumber i = if_num)
           in case intf of
                None \<Rightarrow> Inl TypeError
              | Some i \<Rightarrow>
                  Inr (find_descriptor (endpoints i)
                         (\<lambda>e. endpoint_direction (bEndpointAddress e) = direction))))"

text \<open>
  The receive loop, one iteration per outcome of the script. The result is \<open>None\<close> when
  the script is used up: the next read (no timeout) has been issued and has not returned.
  \<open>Some (Inr ())\<close> is the \<open>break\<close>, \<open>Some (Inl e)\<close> an exception that leaves
  \<open>accept_data\<close>. On \<open>None\<close> for the endpoint, \<open>ep_in.read\<close> fails before any read.
\<close>

fun receive_loop ::
  "usb_device \<Rightarrow> endpoint option \<Rightarrow> read_outcome list \<Rightarrow> (exn + unit) option \<times> event list"
where
  "receive_loop d None rs = (Some (Inl AttributeError), [])"
| "receive_loop d (Some ep_in) [] = (None, [Read (bEndpointAddress ep_in) 1 0])"
| "receive_loop d (Some ep_in) (r # rs) =
     (let rd = Read (bEndpointAddress ep_in) 1 0 in
      case r of
        ReadReturns data \<Rightarrow>
          (case data of
             [] \<Rightarrow> (Some (Inl IndexError), [rd])
           | b # _ \<Rightarrow>
               (let (res, evs) = receive_loop d (Some ep_in) rs
                in (res, rd # Stdout (PNum (unat b)) # evs)))
      | ReadRaises e \<Rightarrow>
          (case e of
             USBError _ _ \<Rightarrow>
               (Some (Inr ()),
                [rd, Stdout (PStr ''failed to send IN transfer''), Stdout (PExn e)])
           | KeyboardInterrupt \<Rightarrow>
               (case detach_kernel_driver d 0 of
                  Some e' \<Rightarrow>
                    (Some (Inl e'),
                     [rd, ConsolePrint ''Disconnecting device......... '',
                      DetachKernelDriver 0])
                | None \<Rightarrow>
                    (let (res, evs) = receive_loop d (Some ep_in) rs
                     in (res, rd # ConsolePrint ''Disconnecting device......... ''
                              # DetachKernelDriver 0 # evs)))
           | _ \<Rightarrow> (Some (Inl e), [rd])))"

definition accept_data :: "state \<Rightarrow> (exn + unit) option \<times> state" where
  "accept_data s =
     (let s1 = emit (ConsolePrint ''[bold blue]Accepting data...'') s in
      case device s1 of
        None \<Rightarrow> (Some (Inl AttributeError), s1)
      | Some d \<Rightarrow>
          (let s2 = emit GetActiveConfiguration s1 in
           case get_active_configuration d of
             Inl e \<Rightarrow> (Some (Inl e), s2)
           | Inr cfg \<Rightarrow>
               (case find_endpoint ENDPOINT_IN cfg of
                  Inl e \<Rightarrow> (Some (Inl e), s2)
                | Inr ep_in \<Rightarrow>
                    (let (res, evs) = receive_loop d ep_in (reads s2)
                     in (res, s2\<lparr>trace := trace s2 @ evs\<rparr>)))))"

text \<open>
  The send loop of \<open>write\<close> (here \<open>write_data\<close>, the source's name being a keyword of
  Isabelle): one line from the console, then one write. \<open>None\<close>: the script of
  inputs is used up and the loop waits for the next line.
\<close>

fun send_loop ::
  "usb_device \<Rightarrow> endpoint option \<Rightarrow> (exn + string) list \<Rightarrow> (exn + unit) option \<times> event list"
where
  "send_loop d ep_out [] = (None, [ConsoleInput ''[bold blue]Write: ''])"
| "send_loop d ep_out (Inl e # rest) = (Some (Inl e), [ConsoleInput ''[bold blue]Write: ''])"
| "send_loop d ep_out (Inr message # rest) =
     (let inp = ConsoleInput ''[bold blue]Write: '' in
      case ep_out of
        None \<Rightarrow> (Some (Inl AttributeError), [inp])
      | Some ep \<Rightarrow>
          (let wr = EpWrite (bEndpointAddress ep) message in
           case bulk_write d (bEndpointAddress ep) message of
             Some e \<Rightarrow> (Some (Inl e), [inp, wr])
           | None \<Rightarrow>
               (let (res, evs) = send_loop d ep_out rest
                in (res, inp # wr # evs))))"

definition write_data :: "state \<Rightarrow> (exn + unit) option \<times> state" where
  "write_data s =
     (case device s of
        None \<Rightarrow> (Some (Inl AttributeError), s)
      | Some d \<Rightarrow>
          (let s1 = emit GetActiveConfiguration s in
           case get_active_configuration d of
             Inl e \<Rightarrow> (Some (Inl e), s1)
           | Inr cfg \<Rightarrow>
               (case find_endpoint ENDPOINT_OUT cfg of
                  Inl e \<Rightarrow> (Some (Inl e), s1)
                | Inr ep_out \<Rightarrow>
                    (let (res, evs) = send_loop d ep_out (inputs s1)
                     in (res, s1\<lparr>trace := trace s1 @ evs\<rparr>)))))"

text \<open>Projections of a trace used in the statements below.\<close>

fun is_read :: "event \<Rightarrow> bool" where
  "is_read (Read _ _ _) = True"
| "is_read _ = False"

fun is_identity_write :: "event \<Rightarrow> bool" where
  "is_identity_write (CtrlTransfer rq) = (bRequest rq = 52)"
| "is_identity_write _ = False"

fun stdout_of :: "event list \<Rightarrow> printed list" where
  "stdout_of [] = []"
| "stdout_of (Stdout p # evs) = p # stdout_of evs"
| "stdout_of (_ # evs) = stdout_of evs"

text \<open>
  For the statements about the receive loop. \<open>continues d r\<close>: after the outcome
  \<open>r\<close> the loop goes round again (a read that returned at least one byte, or an
  interrupt whose \<open>detach_kernel_driver(0)\<close> returns). \<open>received rs\<close>: what
  \<open>print(data[0])\<close> writes for the reads of \<open>rs\<close> that returned data.
\<close>

fun continues :: "usb_device \<Rightarrow> read_outcome \<Rightarrow> bool" where
  "continues d (ReadReturns data) = (data \<noteq> [])"
| "continues d (ReadRaises e) = (e = KeyboardInterrupt \<and> detach_kernel_driver d 0 = None)"

fun received :: "read_outcome list \<Rightarrow> printed list" where
  "received [] = []"
| "received (ReadReturns (b # _) # rs) = PNum (unat b) # received rs"
| "received (_ # rs) = received rs"

section \<open>The identity strings as a list\<close>

text \<open>
  The six calls of \<open>send_string\<close> in \<open>send_accessory_parameters\<close>, as the list of
  their arguments, and the same sequence of calls as a recursion over that list. The
  lemma \<open>send_accessory_parameters_unfold\<close> below shows that this is the function of the
  source. \<open>send_result\<close> and \<open>sent\<close> give, for a device \<open>d\<close>, the outcome of the
  sequence and the requests it issues.
\<close>

definition identity_strings :: "(nat \<times> string) list" where
  "identity_strings =
     [(0, ''dvpashkevich''),
      (1, ''PyAndroidCompanion''),
      (2, ''A Python based Android accessory companion''),
      (3, ''0.1.0''),
      (4, ''https://github.com/alien-agent/USB-Communicator-Script''),
      (5, ''0000-0000-0000'')]"

fun send_strings :: "(nat \<times> string) list \<Rightarrow> unit action" where
  "send_strings [] s = (Inr (), s)"
| "send_strings ((i, v) # rest) s =
     (case send_string i v s of
        (Inl e, s') \<Rightarrow> (Inl e, s')
      | (Inr _, s') \<Rightarrow> send_strings rest s')"

definition send_string_result :: "usb_device \<Rightarrow> nat \<Rightarrow> string \<Rightarrow> exn + unit" where
  "send_string_result d i v =
     (case ctrl_transfer d (string_req i v) of
        Inl e \<Rightarrow> Inl e
      | Inr ret \<Rightarrow>
          if ret \<noteq> PInt (int (length v)) then Inl (ValueError ''Received non-valid response'')
          else Inr ())"

fun send_result :: "usb_device \<Rightarrow> (nat \<times> string) list \<Rightarrow> exn + unit" where
  "send_result d [] = Inr ()"
| "send_result d ((i, v) # rest) =
     (case send_string_result d i v of Inl e \<Rightarrow> Inl e | Inr _ \<Rightarrow> send_result d rest)"

fun sent :: "usb_device \<Rightarrow> (nat \<times> string) list \<Rightarrow> ctrl_req list" where
  "sent d [] = []"
| "sent d ((i, v) # rest) =
     string_req i v # (case send_string_result d i v of Inl e \<Rightarrow> [] | Inr _ \<Rightarrow> sent d rest)"

section \<open>Concrete devices and states\<close>

text \<open>
  A device that behaves: it accepts the configuration, reports protocol version 2,
  acknowledges every byte written to it, and has one interface with a bulk IN endpoint
  (address 0x81) and a bulk OUT endpoint (address 0x01).
\<close>

definition phone :: usb_device where
  "phone =
     \<lparr>path = 1,
      set_configuration = None,
      ctrl_transfer = (\<lambda>rq.
         case data_or_wLength rq of
           WLength _ \<Rightarrow> Inr (PBytes [2, 0])
         | WData str_val \<Rightarrow> Inr (PInt (int (length str_val)))),
      get_active_configuration =
        Inr [\<lparr>bInterfaceNumber = 0,
              endpoints = [\<lparr>bEndpointAddress = 0x81\<rparr>, \<lparr>bEndpointAddress = 0x01\<rparr>]\<rparr>],
      detach_kernel_driver = (\<lambda>_. None),
      bulk_write = (\<lambda>_ _. None)\<rparr>"

text \<open>The same device when its configuration is already set: errno 16.\<close>

definition busy_phone :: usb_device where
  "busy_phone = phone\<lparr>set_configuration := Some (USBError (Some 16) ''Resource busy'')\<rparr>"

text \<open>A session that holds the device \<open>d\<close> and has done nothing yet.\<close>

definition start :: "usb_device \<Rightarrow> state" where
  "start d = \<lparr>device = Some d, bus = None, reads = [], inputs = [], trace = []\<rparr>"

text \<open>A device that reports protocol version 1.\<close>

definition old_phone :: usb_device where
  "old_phone =
     phone\<lparr>ctrl_transfer := (\<lambda>rq.
         case data_or_wLength rq of
           WLength _ \<Rightarrow> Inr (PBytes [1, 0])
         | WData str_val \<Rightarrow> Inr (PInt (int (length str_val))))\<rparr>"

text \<open>A device that acknowledges at most 16 bytes of each write.\<close>

definition truncating_phone :: usb_device where
  "truncating_phone =
     phone\<lparr>ctrl_transfer := (\<lambda>rq.
         case data_or_wLength rq of
           WLength _ \<Rightarrow> Inr (PBytes [2, 0])
         | WData str_val \<Rightarrow> Inr (PInt (min 16 (int (length str_val)))))\<rparr>"

text \<open>A device whose only endpoint is a bulk OUT endpoint.\<close>

definition out_only_phone :: usb_device where
  "out_only_phone =
     phone\<lparr>get_active_configuration :=
        Inr [\<lparr>bInterfaceNumber = 0, endpoints = [\<lparr>bEndpointAddress = 0x01\<rparr>]\<rparr>]\<rparr>"

text \<open>A device whose only endpoint is a bulk IN endpoint.\<close>

definition in_only_phone :: usb_device where
  "in_only_phone =
     phone\<lparr>get_active_configuration :=
        Inr [\<lparr>bInterfaceNumber = 0, endpoints = [\<lparr>bEndpointAddress = 0x81\<rparr>]\<rparr>]\<rparr>"

text \<open>A device with no kernel driver to detach: \<open>detach_kernel_driver\<close> raises.\<close>

definition locked_phone :: usb_device where
  "locked_phone =
     phone\<lparr>detach_kernel_driver := (\<lambda>_. Some (USBError (Some 2) ''Entity not found''))\<rparr>"

text \<open>The device as it comes back on the bus in accessory mode, at another place.\<close>

definition accessory :: usb_device where
  "accessory = phone\<lparr>path := 2\<rparr>"

section \<open>Basic facts\<close>

lemma emit_fields [simp]:
  "device (emit ev s) = device s" "bus (emit ev s) = bus s"
  "reads (emit ev s) = reads s" "inputs (emit ev s) = inputs s"
  "trace (emit ev s) = trace s @ [ev]"
  by (simp_all add: emit_def)

lemma new_events_append [simp]: "trace s' = trace s @ evs \<Longrightarrow> new_events s s' = evs"
  by (simp add: new_events_def)

section \<open>Configure\<close>

text \<open>
  C1. The claim: a configuration that fails with errno 16 ("already configured") counts
  as a success and negotiation goes on to the version check. The code does not do that:
  on the device \<open>busy_phone\<close>, whose \<open>set_configuration\<close> raises \<open>USBError\<close> with
  errno 16, \<open>set_protocol\<close> raises that same error, and the only call it has issued is
  \<open>set_configuration\<close>: the protocol version is never read.
\<close>

theorem set_protocol_errno16_reraised:
  "set_protocol (start busy_phone) =
     (Inl (USBError (Some 16) ''Resource busy''),
      (start busy_phone)\<lparr>trace := [SetConfiguration]\<rparr>)"
  by (simp add: set_protocol_def start_def busy_phone_def phone_def emit_def)

lemma send_string_closed:
  "device s = Some d \<Longrightarrow>
   send_string i v s = (send_string_result d i v, emit (CtrlTransfer (string_req i v)) s)"
  by (simp add: send_string_def send_string_result_def device_ctrl_transfer_def
           split: sum.splits)

lemma send_string_no_device:
  "device s = None \<Longrightarrow> send_string i v s = (Inl AttributeError, s)"
  by (simp add: send_string_def device_ctrl_transfer_def)

lemma send_strings_closed:
  "device s = Some d \<Longrightarrow>
   send_strings xs s =
     (send_result d xs, s\<lparr>trace := trace s @ map CtrlTransfer (sent d xs)\<rparr>)"
proof (induction xs arbitrary: s)
  case Nil
  then show ?case by simp
next
  case (Cons x xs)
  obtain i v where x: "x = (i, v)" by (cases x)
  show ?case
  proof (cases "send_string_result d i v")
    case (Inl e)
    with Cons.prems x show ?thesis
      by (simp add: send_string_closed emit_def)
  next
    case (Inr u)
    have "device (emit (CtrlTransfer (string_req i v)) s) = Some d"
      using Cons.prems by simp
    from Cons.IH [OF this] Inr Cons.prems x show ?thesis
      by (simp add: send_string_closed emit_def)
  qed
qed

lemma and_then_send_strings:
  "and_then (send_string i v) (send_strings rest) = send_strings ((i, v) # rest)"
  by (rule ext) (simp add: and_then_def)

lemma send_string_last: "send_string i v = send_strings [(i, v)]"
  by (rule ext) (simp split: prod.splits sum.splits)

lemma send_accessory_parameters_unfold:
  "send_accessory_parameters = send_strings identity_strings"
  unfolding send_accessory_parameters_def identity_strings_def
  by (subst send_string_last) (simp only: and_then_send_strings)

lemma send_accessory_parameters_closed:
  "device s = Some d \<Longrightarrow>
   send_accessory_parameters s =
     (send_result d identity_strings,
      s\<lparr>trace := trace s @ map CtrlTransfer (sent d identity_strings)\<rparr>)"
  by (simp add: send_accessory_parameters_unfold send_strings_closed)

lemma send_accessory_parameters_no_device:
  "device s = None \<Longrightarrow> send_accessory_parameters s = (Inl AttributeError, s)"
  by (simp add: send_accessory_parameters_unfold identity_strings_def send_string_no_device)

lemma send_result_sent_all:
  "send_result d xs = Inr () \<Longrightarrow> sent d xs = map (\<lambda>(i, v). string_req i v) xs"
  by (induction d xs rule: send_result.induct) (auto split: sum.splits)

lemma sent_prefix: "prefix (sent d xs) (map (\<lambda>(i, v). string_req i v) xs)"
  by (induction d xs rule: sent.induct) (auto split: sum.splits)

lemma send_result_acks:
  assumes "\<forall>(i, v)\<in>set xs. ctrl_transfer d (string_req i v) = Inr (PInt (f i))"
    and "sorted (map fst xs)"
  shows "(send_result d xs = Inr () \<longleftrightarrow> (\<forall>(i, v)\<in>set xs. f i = int (length v)))
       \<and> (\<forall>(i, v)\<in>set xs. f i \<noteq> int (length v) \<longrightarrow>
             send_result d xs = Inl (ValueError ''Received non-valid response'')
             \<and> (\<forall>rq\<in>set (sent d xs). wIndex rq \<le> i))"
  using assms
proof (induction xs)
  case Nil
  then show ?case by simp
next
  case (Cons x xs)
  obtain i0 v0 where x: "x = (i0, v0)" by (cases x)
  have head: "ctrl_transfer d (string_req i0 v0) = Inr (PInt (f i0))"
    using Cons.prems x by simp
  have least: "\<forall>(i, v)\<in>set xs. i0 \<le> i"
    using Cons.prems(2) x by auto
  have IH: "(send_result d xs = Inr () \<longleftrightarrow> (\<forall>(i, v)\<in>set xs. f i = int (length v)))
       \<and> (\<forall>(i, v)\<in>set xs. f i \<noteq> int (length v) \<longrightarrow>
             send_result d xs = Inl (ValueError ''Received non-valid response'')
             \<and> (\<forall>rq\<in>set (sent d xs). wIndex rq \<le> i))"
    using Cons by simp
  show ?case
  proof (cases "f i0 = int (length v0)")
    case True
    then have ok: "send_string_result d i0 v0 = Inr ()"
      using head by (simp add: send_string_result_def)
    have w: "wIndex (string_req i0 v0) = i0"
      by (simp add: string_req_def)
    show ?thesis
      using IH ok True least w unfolding x by fastforce
  next
    case False
    then have bad: "send_string_result d i0 v0 = Inl (ValueError ''Received non-valid response'')"
      using head by (simp add: send_string_result_def)
    have w: "wIndex (string_req i0 v0) = i0"
      by (simp add: string_req_def)
    show ?thesis
      using False bad least w unfolding x by fastforce
  qed
qed


lemma phone_sends_all: "send_result phone identity_strings = Inr ()"
  by (simp add: identity_strings_def send_string_result_def phone_def string_req_def)

section \<open>SendIdentity\<close>

text \<open>
  C3, as claimed: exactly five identity strings are sent, at slots 0 to 4, and no other
  slot is written. This fails: on the device \<open>phone\<close>, which acknowledges every write,
  \<open>send_accessory_parameters\<close> issues six writes with request code 52, and one of them
  carries the string \<open>0000-0000-0000\<close> at slot 5.
\<close>

theorem identity_slot5_counterexample:
  "length (filter is_identity_write
             (new_events (start phone) (snd (send_accessory_parameters (start phone))))) = 6
   \<and> CtrlTransfer \<lparr>bmRequestType = 0x40, bRequest = 52, wValue = 0, wIndex = 5,
                    data_or_wLength = WData ''0000-0000-0000'', timeout = Some 0\<rparr>
       \<in> set (new_events (start phone) (snd (send_accessory_parameters (start phone))))"
proof -
  have dev: "device (start phone) = Some phone"
    by (simp add: start_def)
  have "sent phone identity_strings = map (\<lambda>(i, v). string_req i v) identity_strings"
    using phone_sends_all by (rule send_result_sent_all)
  then show ?thesis
    by (simp add: send_accessory_parameters_closed [OF dev] identity_strings_def string_req_def)
qed

text \<open>
  C3, amended: \<open>send_accessory_parameters\<close> writes the six identity strings at slots 0
  to 5, in that order (manufacturer, model, description, version, URI, serial), each as a
  vendor control write (request type 0x40) with request code 52. Whatever the device
  answers, the control transfers issued are an initial part of that list of six, so no
  other slot is written and the order never changes; when the step completes normally
  they are exactly the six.
\<close>

theorem identity_six_slots_in_order:
  assumes "device s = Some d"
  shows "prefix (new_events s (snd (send_accessory_parameters s)))
           (map (\<lambda>(i, v). CtrlTransfer
                   \<lparr>bmRequestType = 0x40, bRequest = 52, wValue = 0, wIndex = i,
                    data_or_wLength = WData v, timeout = Some 0\<rparr>) identity_strings)
       \<and> (fst (send_accessory_parameters s) = Inr () \<longrightarrow>
            new_events s (snd (send_accessory_parameters s)) =
              map (\<lambda>(i, v). CtrlTransfer
                     \<lparr>bmRequestType = 0x40, bRequest = 52, wValue = 0, wIndex = i,
                      data_or_wLength = WData v, timeout = Some 0\<rparr>) identity_strings)"
proof -
  have m: "map (\<lambda>(i, v). CtrlTransfer
                   \<lparr>bmRequestType = 0x40, bRequest = 52, wValue = 0, wIndex = i,
                    data_or_wLength = WData v, timeout = Some 0\<rparr>) xs
           = map CtrlTransfer (map (\<lambda>(i, v). string_req i v) xs)" for xs
    by (simp add: string_req_def split_def)
  have ev: "new_events s (snd (send_accessory_parameters s))
              = map CtrlTransfer (sent d identity_strings)"
    by (simp add: send_accessory_parameters_closed [OF assms])
  have "prefix (map CtrlTransfer (sent d identity_strings))
          (map CtrlTransfer (map (\<lambda>(i, v). string_req i v) identity_strings))"
    using sent_prefix by (rule map_mono_prefix)
  moreover have "fst (send_accessory_parameters s) = Inr () \<Longrightarrow>
      sent d identity_strings = map (\<lambda>(i, v). string_req i v) identity_strings"
    by (rule send_result_sent_all) (simp add: send_accessory_parameters_closed [OF assms])
  ultimately show ?thesis
    unfolding ev m by simp
qed

theorem identity_six_slots_in_order_witness:
  "fst (send_accessory_parameters (start phone)) = Inr ()
   \<and> new_events (start phone) (snd (send_accessory_parameters (start phone))) =
        map (\<lambda>(i, v). CtrlTransfer
               \<lparr>bmRequestType = 0x40, bRequest = 52, wValue = 0, wIndex = i,
                data_or_wLength = WData v, timeout = Some 0\<rparr>) identity_strings"
proof -
  have dev: "device (start phone) = Some phone"
    by (simp add: start_def)
  have ok: "fst (send_accessory_parameters (start phone)) = Inr ()"
    by (simp add: send_accessory_parameters_closed [OF dev] phone_sends_all)
  from identity_six_slots_in_order [OF dev] ok show ?thesis
    by simp
qed

text \<open>
  C5: let \<open>acks\<close> be a sequence of byte counts, one for each string, and let the device
  answer the write of the string at slot \<open>i\<close> with the count \<open>acks ! i\<close>. Then \<open>send_accessory_parameters\<close> completes normally iff every count
  equals the length of the string sent; and if the count for slot \<open>i\<close> differs, the
  step raises \<open>ValueError\<close> (the rejection of the identity) and no control write is
  issued for a slot greater than \<open>i\<close>.
\<close>

theorem identity_acks_decide:
  assumes "device s = Some d"
    and "length acks = length identity_strings"
    and "\<forall>(i, v)\<in>set identity_strings. ctrl_transfer d (string_req i v) = Inr (PInt (acks ! i))"
  shows "(fst (send_accessory_parameters s) = Inr ()
            \<longleftrightarrow> (\<forall>(i, v)\<in>set identity_strings. acks ! i = int (length v)))
       \<and> (\<forall>(i, v)\<in>set identity_strings. acks ! i \<noteq> int (length v) \<longrightarrow>
             fst (send_accessory_parameters s) = Inl (ValueError ''Received non-valid response'')
             \<and> (\<forall>rq. CtrlTransfer rq \<in> set (new_events s (snd (send_accessory_parameters s)))
                    \<longrightarrow> wIndex rq \<le> i))"
proof -
  have srt: "sorted (map fst identity_strings)"
    by (simp add: identity_strings_def)
  have ev: "new_events s (snd (send_accessory_parameters s))
              = map CtrlTransfer (sent d identity_strings)"
    by (simp add: send_accessory_parameters_closed [OF assms(1)])
  have res: "fst (send_accessory_parameters s) = send_result d identity_strings"
    by (simp add: send_accessory_parameters_closed [OF assms(1)])
  have mem: "CtrlTransfer rq \<in> set (map CtrlTransfer rqs) \<longleftrightarrow> rq \<in> set rqs" for rq rqs
    by auto
  show ?thesis
    unfolding ev res mem
    using send_result_acks [OF assms(3) srt] by blast
qed

theorem identity_acks_decide_witness:
  "fst (send_accessory_parameters (start truncating_phone))
     = Inl (ValueError ''Received non-valid response'')
   \<and> new_events (start truncating_phone) (snd (send_accessory_parameters (start truncating_phone)))
     = [CtrlTransfer (string_req 0 ''dvpashkevich''),
        CtrlTransfer (string_req 1 ''PyAndroidCompanion'')]"
proof -
  have dev: "device (start truncating_phone) = Some truncating_phone"
    by (simp add: start_def)
  have acks: "\<forall>(i, v)\<in>set identity_strings.
      ctrl_transfer truncating_phone (string_req i v) = Inr (PInt ([12, 16, 16, 5, 16, 14] ! i))"
    by (simp add: identity_strings_def truncating_phone_def phone_def string_req_def)
  have len: "length [12, 16, 16, 5, 16, 14 :: int] = length identity_strings"
    by (simp add: identity_strings_def)
  have bad: "(1, ''PyAndroidCompanion'') \<in> set identity_strings"
    by (simp add: identity_strings_def)
  have "fst (send_accessory_parameters (start truncating_phone))
          = Inl (ValueError ''Received non-valid response'')"
    using identity_acks_decide [OF dev len acks] bad by fastforce
  moreover have "new_events (start truncating_phone)
        (snd (send_accessory_parameters (start truncating_phone)))
     = [CtrlTransfer (string_req 0 ''dvpashkevich''),
        CtrlTransfer (string_req 1 ''PyAndroidCompanion'')]"
  proof -
    have "sent truncating_phone identity_strings
            = [string_req 0 ''dvpashkevich'', string_req 1 ''PyAndroidCompanion'']"
      by (simp add: identity_strings_def send_string_result_def truncating_phone_def
            phone_def string_req_def)
    then show ?thesis
      by (simp add: send_accessory_parameters_closed [OF dev])
  qed
  ultimately show ?thesis by simp
qed


lemma prefix_emit: "prefix (trace s) (trace (emit ev s))"
  by simp

lemma set_protocol_frame:
  "device (snd (set_protocol s)) = device s \<and> bus (snd (set_protocol s)) = bus s
   \<and> prefix (trace s) (trace (snd (set_protocol s)))"
  by (auto simp: set_protocol_def device_ctrl_transfer_def Let_def
           split: option.splits exn.splits sum.splits prod.splits)

lemma send_accessory_parameters_frame:
  "device (snd (send_accessory_parameters s)) = device s
   \<and> bus (snd (send_accessory_parameters s)) = bus s
   \<and> prefix (trace s) (trace (snd (send_accessory_parameters s)))"
proof (cases "device s")
  case None
  then show ?thesis by (simp add: send_accessory_parameters_no_device)
next
  case (Some d)
  then show ?thesis by (simp add: send_accessory_parameters_closed)
qed

lemma set_accessory_mode_frame:
  "device (snd (set_accessory_mode s))
     = (if fst (set_accessory_mode s) = Inr () then bus s else device s)
   \<and> bus (snd (set_accessory_mode s)) = bus s
   \<and> prefix (trace s) (trace (snd (set_accessory_mode s)))"
  by (auto simp: set_accessory_mode_def device_ctrl_transfer_def Let_def
           split: option.splits sum.splits prod.splits)

lemma run_commands_prefix:
  assumes "\<forall>(n, c)\<in>set cmds. \<forall>s. prefix (trace s) (trace (snd (c s)))"
  shows "prefix (trace s) (trace (snd (run_commands cmds s)))"
  using assms
proof (induction cmds arbitrary: s)
  case Nil
  then show ?case by simp
next
  case (Cons x cmds)
  obtain n c where x: "x = (n, c)" by (cases x)
  let ?s1 = "emit (ConsolePrint (n @ ''......... '')) s"
  obtain r s2 where c: "c ?s1 = (r, s2)" by (cases "c ?s1")
  have p2: "prefix (trace s) (trace s2)"
  proof -
    have "\<forall>s. prefix (trace s) (trace (snd (c s)))"
      using Cons.prems x by simp
    then have "prefix (trace ?s1) (trace (snd (c ?s1)))" ..
    then show ?thesis
      using c by (auto simp: prefix_def)
  qed
  show ?case
  proof (cases r)
    case (Inl e)
    with p2 x c show ?thesis
      by (auto simp: prefix_def)
  next
    case (Inr u)
    have tail: "\<forall>(n, c)\<in>set cmds. \<forall>s. prefix (trace s) (trace (snd (c s)))"
      using Cons.prems by simp
    have "prefix (trace (emit (ConsolePrint ''[bold green]OK'') s2))
            (trace (snd (run_commands cmds (emit (ConsolePrint ''[bold green]OK'') s2))))"
      by (rule Cons.IH [OF tail])
    with p2 x c Inr show ?thesis
      by (auto simp: prefix_def)
  qed
qed

lemma new_events_prefix:
  "prefix (trace s @ evs) (trace s') \<Longrightarrow> set evs \<subseteq> set (new_events s s')"
  by (auto simp: prefix_def new_events_def)

lemma set_protocol_closed:
  assumes "device s = Some d" and "set_configuration d = None"
    and "ctrl_transfer d version_req = Inr (PBytes (v # rest))"
  shows "set_protocol s =
           ((if unat v < 2
             then Inl (ValueError (''Protocol version '' @ str_nat (unat v)
                                    @ '' < 2 is not supported''))
             else Inr ()),
            emit (CtrlTransfer version_req) (emit SetConfiguration s))"
  using assms
  by (simp add: set_protocol_def device_ctrl_transfer_def getitem0_def Let_def)

section \<open>CheckProtocol\<close>

text \<open>
  C4: let the configuration succeed and the version read return an array whose first
  byte is \<open>v\<close>. Then \<open>set_protocol\<close> completes normally iff \<open>v \<ge> 2\<close>. If
  \<open>v < 2\<close> it raises \<open>ValueError\<close> with the version in its message,
  \<open>prepare_device\<close> exits with status 1, and no identity string (request code 52) is
  written. If \<open>v \<ge> 2\<close>, \<open>prepare_device\<close> goes on and issues the write of the first
  identity string.
\<close>

theorem protocol_version_gate:
  assumes "device s = Some d" and "set_configuration d = None"
    and "ctrl_transfer d version_req = Inr (PBytes (v # rest))"
  shows "(fst (set_protocol s) = Inr () \<longleftrightarrow> 2 \<le> unat v)
       \<and> (unat v < 2 \<longrightarrow>
            fst (set_protocol s) =
              Inl (ValueError (''Protocol version '' @ str_nat (unat v)
                                @ '' < 2 is not supported''))
            \<and> fst (prepare_device s) = Inl (SystemExit 1)
            \<and> filter is_identity_write (new_events s (snd (prepare_device s))) = [])
       \<and> (2 \<le> unat v \<longrightarrow>
            CtrlTransfer (string_req 0 ''dvpashkevich'')
              \<in> set (new_events s (snd (prepare_device s))))"
proof -
  let ?s1 = "emit (ConsolePrint ''Verifying protocol......... '') s"
  have d1: "device ?s1 = Some d"
    using assms(1) by simp
  note sp = set_protocol_closed [OF d1 assms(2,3)]
  have a: "fst (set_protocol s) = Inr () \<longleftrightarrow> 2 \<le> unat v"
    by (simp add: set_protocol_closed [OF assms])
  have b: "fst (set_protocol s) =
              Inl (ValueError (''Protocol version '' @ str_nat (unat v)
                                @ '' < 2 is not supported''))
            \<and> fst (prepare_device s) = Inl (SystemExit 1)
            \<and> filter is_identity_write (new_events s (snd (prepare_device s))) = []"
    if low: "unat v < 2"
  proof -
    have "trace (snd (prepare_device s)) = trace s @
            [ConsolePrint ''Verifying protocol......... '', SetConfiguration,
             CtrlTransfer version_req, ConsolePrint ''[bold red]FAIL'',
             ConsolePrintException (ValueError (''Protocol version '' @ str_nat (unat v)
                                @ '' < 2 is not supported''))]"
      using low by (simp add: prepare_device_def sp)
    then have "new_events s (snd (prepare_device s)) =
            [ConsolePrint ''Verifying protocol......... '', SetConfiguration,
             CtrlTransfer version_req, ConsolePrint ''[bold red]FAIL'',
             ConsolePrintException (ValueError (''Protocol version '' @ str_nat (unat v)
                                @ '' < 2 is not supported''))]"
      by (rule new_events_append)
    then have "filter is_identity_write (new_events s (snd (prepare_device s))) = []"
      by (simp add: version_req_def)
    moreover have "fst (prepare_device s) = Inl (SystemExit 1)"
      using low by (simp add: prepare_device_def sp)
    ultimately show ?thesis
      using low by (simp add: set_protocol_closed [OF assms])
  qed
  have c: "CtrlTransfer (string_req 0 ''dvpashkevich'')
              \<in> set (new_events s (snd (prepare_device s)))"
    if high: "2 \<le> unat v"
  proof -
    let ?s2 = "emit (ConsolePrint ''[bold green]OK'')
                 (emit (CtrlTransfer version_req) (emit SetConfiguration ?s1))"
    let ?s3 = "emit (ConsolePrint ''Sending accessory parameters......... '') ?s2"
    let ?rest = "[(''Sending accessory parameters'', send_accessory_parameters),
                  (''Triggering accessory mode'', set_accessory_mode)]"
    have step: "prepare_device s = run_commands ?rest ?s2"
      using high by (simp add: prepare_device_def sp)
    have d3: "device ?s3 = Some d"
      using assms(1) by simp
    obtain tl where tl: "sent d identity_strings = string_req 0 ''dvpashkevich'' # tl"
      by (simp add: identity_strings_def)
    let ?s4 = "?s3\<lparr>trace := trace ?s3 @ map CtrlTransfer (sent d identity_strings)\<rparr>"
    have sap: "send_accessory_parameters ?s3 = (send_result d identity_strings, ?s4)"
      by (rule send_accessory_parameters_closed [OF d3])
    have "prefix (trace ?s4) (trace (snd (run_commands ?rest ?s2)))"
    proof (cases "send_result d identity_strings")
      case (Inl e)
      then show ?thesis
        by (simp add: sap prefix_def)
    next
      case (Inr u)
      have "prefix (trace (emit (ConsolePrint ''[bold green]OK'') ?s4))
              (trace (snd (run_commands [(''Triggering accessory mode'', set_accessory_mode)]
                        (emit (ConsolePrint ''[bold green]OK'') ?s4))))"
        by (rule run_commands_prefix) (simp add: set_accessory_mode_frame)
      then have "prefix (trace ?s4)
              (trace (snd (run_commands [(''Triggering accessory mode'', set_accessory_mode)]
                        (emit (ConsolePrint ''[bold green]OK'') ?s4))))"
        by (auto simp: prefix_def)
      then show ?thesis
        using Inr by (simp add: sap del: run_commands.simps(2))
             (simp add: sap Inr)
    qed
    then have "prefix (trace s @
                 ([ConsolePrint ''Verifying protocol......... '', SetConfiguration,
                   CtrlTransfer version_req, ConsolePrint ''[bold green]OK'',
                   ConsolePrint ''Sending accessory parameters......... '']
                  @ map CtrlTransfer (sent d identity_strings)))
               (trace (snd (prepare_device s)))"
      by (simp add: step)
    from new_events_prefix [OF this] show ?thesis
      by (auto simp: tl)
  qed
  from a b c show ?thesis by blast
qed


theorem protocol_version_gate_witness:
  "fst (set_protocol (start old_phone))
     = Inl (ValueError ''Protocol version 1 < 2 is not supported'')
   \<and> fst (prepare_device (start old_phone)) = Inl (SystemExit 1)
   \<and> filter is_identity_write
        (new_events (start old_phone) (snd (prepare_device (start old_phone)))) = []"
proof -
  have dev: "device (start old_phone) = Some old_phone"
    by (simp add: start_def)
  have cfg: "set_configuration old_phone = None"
    by (simp add: old_phone_def phone_def)
  have ver: "ctrl_transfer old_phone version_req = Inr (PBytes (1 # [0]))"
    by (simp add: old_phone_def version_req_def)
  have low: "unat (1 :: byte) < 2"
    by simp
  have str: "str_nat (unat (1 :: byte)) = ''1''"
    by (simp add: str_nat.simps)
  from protocol_version_gate [OF dev cfg ver] low str show ?thesis
    by simp
qed

section \<open>The device field during negotiation\<close>

text \<open>
  C10: \<open>set_protocol\<close> and \<open>send_accessory_parameters\<close> leave the field
  \<open>device\<close> as it was, whether they return or raise; \<open>set_accessory_mode\<close> replaces
  it by the device found on the bus exactly when it completes normally; and whenever
  \<open>prepare_device\<close> fails, at whichever step, the field still holds the device it held
  before the negotiation.
\<close>

theorem negotiation_keeps_device:
  "device (snd (set_protocol s)) = device s
   \<and> device (snd (send_accessory_parameters s)) = device s
   \<and> device (snd (set_accessory_mode s))
       = (if fst (set_accessory_mode s) = Inr () then bus s else device s)
   \<and> (fst (prepare_device s) \<noteq> Inr () \<longrightarrow> device (snd (prepare_device s)) = device s)"
proof -
  let ?s1 = "emit (ConsolePrint ''Verifying protocol......... '') s"
  obtain r1 t1 where c1: "set_protocol ?s1 = (r1, t1)"
    by (cases "set_protocol ?s1")
  have f1: "device t1 = device s" "bus t1 = bus s"
    using set_protocol_frame [of ?s1] c1 by simp_all
  let ?s2 = "emit (ConsolePrint ''Sending accessory parameters......... '')
               (emit (ConsolePrint ''[bold green]OK'') t1)"
  obtain r2 t2 where c2: "send_accessory_parameters ?s2 = (r2, t2)"
    by (cases "send_accessory_parameters ?s2")
  have f2: "device t2 = device s" "bus t2 = bus s"
    using send_accessory_parameters_frame [of ?s2] c2 f1 by simp_all
  let ?s3 = "emit (ConsolePrint ''Triggering accessory mode......... '')
               (emit (ConsolePrint ''[bold green]OK'') t2)"
  obtain r3 t3 where c3: "set_accessory_mode ?s3 = (r3, t3)"
    by (cases "set_accessory_mode ?s3")
  have f3: "device t3 = (if r3 = Inr () then bus s else device s)"
    using set_accessory_mode_frame [of ?s3] c3 f2 by simp
  have "fst (prepare_device s) \<noteq> Inr () \<longrightarrow> device (snd (prepare_device s)) = device s"
    using c1 c2 c3 f1 f2 f3
    by (cases r1; cases r2; cases r3) (simp_all add: prepare_device_def)
  then show ?thesis
    using set_protocol_frame [of s] send_accessory_parameters_frame [of s]
      set_accessory_mode_frame [of s]
    by simp
qed

theorem negotiation_keeps_device_witness:
  "fst (prepare_device (start old_phone)) \<noteq> Inr ()
   \<and> device (snd (prepare_device (start old_phone))) = device (start old_phone)"
proof -
  have "fst (prepare_device (start old_phone)) = Inl (SystemExit 1)"
    by (simp add: prepare_device_def set_protocol_def device_ctrl_transfer_def getitem0_def
          start_def old_phone_def phone_def version_req_def Let_def)
  then have fails: "fst (prepare_device (start old_phone)) \<noteq> Inr ()"
    by simp
  with negotiation_keeps_device [of "start old_phone"] show ?thesis
    by simp
qed

section \<open>TriggerAccessoryMode\<close>

text \<open>
  C9: let the trigger write return \<open>ack\<close>. \<open>set_accessory_mode\<close> raises the
  \<open>ValueError\<close> of a failed trigger iff \<open>ack\<close> is neither the count 0 nor an empty
  array, and then nothing follows the control write; with a zero or empty \<open>ack\<close> the
  step goes on to the one-second sleep and the scan of the bus.
\<close>

theorem trigger_fails_iff_ack_nonzero:
  assumes "device s = Some d" and "ctrl_transfer d trigger_req = Inr ack"
  shows "(fst (set_accessory_mode s) = Inl (ValueError ''Failed to trigger accessory mode'')
            \<longleftrightarrow> ack \<noteq> PInt 0 \<and> ack \<noteq> PBytes [])
       \<and> (ack \<noteq> PInt 0 \<and> ack \<noteq> PBytes [] \<longrightarrow>
            new_events s (snd (set_accessory_mode s)) = [CtrlTransfer trigger_req])
       \<and> (ack = PInt 0 \<or> ack = PBytes [] \<longrightarrow>
            new_events s (snd (set_accessory_mode s)) =
              [CtrlTransfer trigger_req, Sleep 1, Find])"
  using assms
  by (cases ack)
     (auto simp: set_accessory_mode_def device_ctrl_transfer_def truthy_def Let_def
           split: option.splits)

theorem trigger_fails_iff_ack_nonzero_witness:
  "device (start phone) = Some phone \<and> ctrl_transfer phone trigger_req = Inr (PInt 0)
   \<and> fst (set_accessory_mode (start phone)) \<noteq> Inl (ValueError ''Failed to trigger accessory mode'')
   \<and> new_events (start phone) (snd (set_accessory_mode (start phone))) =
        [CtrlTransfer trigger_req, Sleep 1, Find]"
  using trigger_fails_iff_ack_nonzero [of "start phone" phone "PInt 0"]
  by (simp add: start_def phone_def trigger_req_def)

text \<open>
  C6, as claimed: when the scan after the trigger finds a device, the handle of the
  session afterwards differs from the one before the trigger. This fails: the code
  compares nothing, and when the scan finds the device the session already holds (here
  \<open>phone\<close>, still at its place on the bus), the step completes normally with the handle
  it had.
\<close>

theorem rescan_same_device_counterexample:
  "fst (set_accessory_mode ((start phone)\<lparr>bus := Some phone\<rparr>)) = Inr ()
   \<and> device (snd (set_accessory_mode ((start phone)\<lparr>bus := Some phone\<rparr>)))
       = device ((start phone)\<lparr>bus := Some phone\<rparr>)"
  by (simp add: set_accessory_mode_def device_ctrl_transfer_def truthy_def Let_def
        start_def phone_def trigger_req_def)

text \<open>
  C6, amended: after a trigger with a zero or empty acknowledgment the bus is scanned
  once, after the one-second sleep. If the scan finds nothing, the step raises
  \<open>ValueError\<close> (the device is lost) and the handle of the session is not replaced; if
  it finds a device, the step completes normally and the handle of the session is the
  device found, whichever it is.
\<close>

theorem rescan_once_then_replace:
  assumes "device s = Some d" and "ctrl_transfer d trigger_req = Inr ack"
    and "ack = PInt 0 \<or> ack = PBytes []"
  shows "new_events s (snd (set_accessory_mode s)) = [CtrlTransfer trigger_req, Sleep 1, Find]
       \<and> (bus s = None \<longrightarrow>
            fst (set_accessory_mode s) =
              Inl (ValueError ''Device gone missing after accessory mode trigger, please restart'')
            \<and> device (snd (set_accessory_mode s)) = device s)
       \<and> (\<forall>dev. bus s = Some dev \<longrightarrow>
            fst (set_accessory_mode s) = Inr ()
            \<and> device (snd (set_accessory_mode s)) = Some dev)"
  using assms
  by (auto simp: set_accessory_mode_def device_ctrl_transfer_def truthy_def Let_def
           split: option.splits)

theorem rescan_once_then_replace_witness:
  "fst (set_accessory_mode ((start phone)\<lparr>bus := Some accessory\<rparr>)) = Inr ()
   \<and> device (snd (set_accessory_mode ((start phone)\<lparr>bus := Some accessory\<rparr>)))
       = Some accessory
   \<and> new_events ((start phone)\<lparr>bus := Some accessory\<rparr>)
        (snd (set_accessory_mode ((start phone)\<lparr>bus := Some accessory\<rparr>)))
       = [CtrlTransfer trigger_req, Sleep 1, Find]"
proof -
  have dev: "device ((start phone)\<lparr>bus := Some accessory\<rparr>) = Some phone"
    by (simp add: start_def)
  have ack: "ctrl_transfer phone trigger_req = Inr (PInt 0)"
    by (simp add: phone_def trigger_req_def)
  have found: "bus ((start phone)\<lparr>bus := Some accessory\<rparr>) = Some accessory"
    by simp
  from rescan_once_then_replace [OF dev ack] found show ?thesis
    by simp
qed

section \<open>Endpoint discovery and the transfer loops\<close>

lemma find_endpoint_first:
  "find_endpoint direction (i0 # rest) =
     Inr (List.find (\<lambda>e. endpoint_direction (bEndpointAddress e) = direction) (endpoints i0))"
  by (simp add: find_endpoint_def find_descriptor_def)

lemma receive_loop_stops:
  assumes "\<forall>r\<in>set pre. continues d r"
  shows "fst (receive_loop d (Some ep) (pre @ ReadRaises (USBError errno msg) # post)) = Some (Inr ())
       \<and> length (filter is_read (snd (receive_loop d (Some ep)
                                       (pre @ ReadRaises (USBError errno msg) # post))))
           = Suc (length pre)
       \<and> stdout_of (snd (receive_loop d (Some ep) (pre @ ReadRaises (USBError errno msg) # post)))
           = received pre @ [PStr ''failed to send IN transfer'', PExn (USBError errno msg)]"
  using assms
proof (induction pre)
  case Nil
  then show ?case by simp
next
  case (Cons r pre)
  then have IH: "fst (receive_loop d (Some ep) (pre @ ReadRaises (USBError errno msg) # post)) = Some (Inr ())
       \<and> length (filter is_read (snd (receive_loop d (Some ep)
                                       (pre @ ReadRaises (USBError errno msg) # post))))
           = Suc (length pre)
       \<and> stdout_of (snd (receive_loop d (Some ep) (pre @ ReadRaises (USBError errno msg) # post)))
           = received pre @ [PStr ''failed to send IN transfer'', PExn (USBError errno msg)]"
    by simp
  have c: "continues d r"
    using Cons.prems by simp
  show ?case
  proof (cases r)
    case (ReadReturns data)
    with c obtain b bs where "data = b # bs"
      by (cases data) auto
    with ReadReturns IH show ?thesis
      by (simp add: split_def)
  next
    case (ReadRaises e)
    with c have "e = KeyboardInterrupt" "detach_kernel_driver d 0 = None"
      by simp_all
    with ReadRaises IH show ?thesis
      by (simp add: split_def)
  qed
qed

lemma receive_loop_reads:
  "ev \<in> set (snd (receive_loop d (Some ep) rs)) \<Longrightarrow> is_read ev \<Longrightarrow>
   ev = Read (bEndpointAddress ep) 1 0"
  by (induction rs)
     (auto simp: split_def Let_def
           split: read_outcome.splits list.splits exn.splits option.splits)

lemma receive_loop_reads_nonempty:
  "filter is_read (snd (receive_loop d (Some ep) rs)) \<noteq> []"
  by (cases rs)
     (auto simp: split_def Let_def
           split: read_outcome.splits list.splits exn.splits option.splits)

lemma send_loop_writes:
  "EpWrite a m \<in> set (snd (send_loop d (Some ep) ins)) \<Longrightarrow> a = bEndpointAddress ep"
  by (induction d "Some ep" ins rule: send_loop.induct)
     (auto simp: split_def Let_def split: option.splits)

lemma send_loop_none:
  "EpWrite a m \<notin> set (snd (send_loop d None ins))"
  by (induction d "None :: endpoint option" ins rule: send_loop.induct) auto


lemma accept_data_closed:
  assumes "device s = Some d" and "get_active_configuration d = Inr (i0 # rest)"
  shows "accept_data s =
           (fst (receive_loop d
                   (List.find (\<lambda>e. endpoint_direction (bEndpointAddress e) = ENDPOINT_IN)
                      (endpoints i0)) (reads s)),
            s\<lparr>trace := trace s @
                 ConsolePrint ''[bold blue]Accepting data...'' # GetActiveConfiguration #
                 snd (receive_loop d
                        (List.find (\<lambda>e. endpoint_direction (bEndpointAddress e) = ENDPOINT_IN)
                           (endpoints i0)) (reads s))\<rparr>)"
  using assms
  by (simp add: accept_data_def find_endpoint_first split_def emit_def Let_def)

lemma write_data_closed:
  assumes "device s = Some d" and "get_active_configuration d = Inr (i0 # rest)"
  shows "write_data s =
           (fst (send_loop d
                   (List.find (\<lambda>e. endpoint_direction (bEndpointAddress e) = ENDPOINT_OUT)
                      (endpoints i0)) (inputs s)),
            s\<lparr>trace := trace s @
                 GetActiveConfiguration #
                 snd (send_loop d
                        (List.find (\<lambda>e. endpoint_direction (bEndpointAddress e) = ENDPOINT_OUT)
                           (endpoints i0)) (inputs s))\<rparr>)"
  using assms
  by (simp add: write_data_def find_endpoint_first split_def emit_def Let_def)

lemma find_Some_dir:
  "List.find (\<lambda>e. endpoint_direction (bEndpointAddress e) = direction) eps = Some ep \<Longrightarrow>
   ep \<in> set eps \<and> endpoint_direction (bEndpointAddress ep) = direction"
  by (auto simp: find_Some_iff)

text \<open>
  C8: let the interface have an IN endpoint, and let a read of the receive loop raise
  \<open>USBError\<close> after the outcomes \<open>pre\<close>, each of which lets the loop go round
  again. Then \<open>accept_data\<close> returns (the loop has ended); it has issued one read for
  each outcome of \<open>pre\<close> and one for the error, and none after it, whatever the device
  would have delivered next (\<open>post\<close>); and standard output holds, in order, the first
  byte of every read of \<open>pre\<close> that returned data, as an unsigned number, then the
  line \<open>failed to send IN transfer\<close> and the error itself.
\<close>

theorem receive_loop_ends_at_usb_error:
  assumes "device s = Some d" and "get_active_configuration d = Inr (i0 # rest)"
    and "ep \<in> set (endpoints i0)"
    and "endpoint_direction (bEndpointAddress ep) = ENDPOINT_IN"
    and "reads s = pre @ ReadRaises (USBError errno msg) # post"
    and "\<forall>r\<in>set pre. continues d r"
  shows "fst (accept_data s) = Some (Inr ())
       \<and> length (filter is_read (new_events s (snd (accept_data s)))) = Suc (length pre)
       \<and> stdout_of (new_events s (snd (accept_data s)))
           = received pre @ [PStr ''failed to send IN transfer'', PExn (USBError errno msg)]"
proof -
  let ?P = "\<lambda>e. endpoint_direction (bEndpointAddress e) = ENDPOINT_IN"
  obtain ep' where f: "List.find ?P (endpoints i0) = Some ep'"
    using assms(3,4) by (cases "List.find ?P (endpoints i0)") (auto simp: find_None_iff)
  let ?run = "receive_loop d (Some ep') (pre @ ReadRaises (USBError errno msg) # post)"
  have ev: "new_events s (snd (accept_data s))
              = ConsolePrint ''[bold blue]Accepting data...'' # GetActiveConfiguration # snd ?run"
    by (simp add: accept_data_closed [OF assms(1,2)] f assms(5))
  have res: "fst (accept_data s) = fst ?run"
    by (simp add: accept_data_closed [OF assms(1,2)] f assms(5))
  from receive_loop_stops [OF assms(6), of ep' errno msg post] show ?thesis
    unfolding ev res by simp
qed

theorem receive_loop_ends_at_usb_error_witness:
  "fst (accept_data ((start phone)\<lparr>reads :=
          [ReadReturns [7], ReadRaises KeyboardInterrupt, ReadReturns [200],
           ReadRaises (USBError (Some 19) ''No such device''), ReadReturns [9]]\<rparr>))
     = Some (Inr ())
   \<and> stdout_of (new_events
        ((start phone)\<lparr>reads :=
          [ReadReturns [7], ReadRaises KeyboardInterrupt, ReadReturns [200],
           ReadRaises (USBError (Some 19) ''No such device''), ReadReturns [9]]\<rparr>)
        (snd (accept_data ((start phone)\<lparr>reads :=
          [ReadReturns [7], ReadRaises KeyboardInterrupt, ReadReturns [200],
           ReadRaises (USBError (Some 19) ''No such device''), ReadReturns [9]]\<rparr>))))
     = [PNum 7, PNum 200, PStr ''failed to send IN transfer'',
        PExn (USBError (Some 19) ''No such device'')]"
proof -
  let ?s = "(start phone)\<lparr>reads :=
          [ReadReturns [7], ReadRaises KeyboardInterrupt, ReadReturns [200],
           ReadRaises (USBError (Some 19) ''No such device''), ReadReturns [9]]\<rparr>"
  let ?pre = "[ReadReturns [7], ReadRaises KeyboardInterrupt, ReadReturns [200 :: byte]]"
  have dev: "device ?s = Some phone"
    by (simp add: start_def)
  have cfg: "get_active_configuration phone =
      Inr (\<lparr>bInterfaceNumber = 0,
              endpoints = [\<lparr>bEndpointAddress = 0x81\<rparr>, \<lparr>bEndpointAddress = 0x01\<rparr>]\<rparr> # [])"
    by (simp add: phone_def)
  have mem: "\<lparr>bEndpointAddress = 0x81\<rparr> \<in> set (endpoints \<lparr>bInterfaceNumber = 0,
              endpoints = [\<lparr>bEndpointAddress = 0x81\<rparr>, \<lparr>bEndpointAddress = 0x01\<rparr>]\<rparr>)"
    by simp
  have dir: "endpoint_direction (bEndpointAddress \<lparr>bEndpointAddress = 0x81\<rparr>) = ENDPOINT_IN"
    by (simp add: endpoint_direction_def ENDPOINT_IN_def)
  have rd: "reads ?s = ?pre @ ReadRaises (USBError (Some 19) ''No such device'') # [ReadReturns [9]]"
    by (simp add: start_def)
  have cont: "\<forall>r\<in>set ?pre. continues phone r"
    by (simp add: phone_def)
  have u: "unat (7 :: byte) = 7" "unat (200 :: byte) = 200"
    by simp_all
  from receive_loop_ends_at_usb_error [OF dev cfg mem dir rd cont] show ?thesis
    by (simp add: u)
qed

text \<open>
  C2. The claim: after an interrupt the channel attempts the detach on interface 0 and
  the loop exits cleanly, whether or not the detach succeeds, with no further read. The
  detach is attempted, but the handler of \<open>KeyboardInterrupt\<close> has no \<open>break\<close>:
  on \<open>phone\<close>, whose detach succeeds, the loop reads again after the interrupt, prints
  the byte 7 that the next read delivers, and is left waiting in a third read; on
  \<open>locked_phone\<close>, whose detach raises, that \<open>USBError\<close> leaves \<open>accept_data\<close>.
\<close>

theorem interrupt_does_not_end_receive_loop:
  "fst (accept_data ((start phone)\<lparr>reads := [ReadRaises KeyboardInterrupt, ReadReturns [7]]\<rparr>))
     = None
   \<and> trace (snd (accept_data
        ((start phone)\<lparr>reads := [ReadRaises KeyboardInterrupt, ReadReturns [7]]\<rparr>)))
     = [ConsolePrint ''[bold blue]Accepting data...'', GetActiveConfiguration,
        Read 0x81 1 0, ConsolePrint ''Disconnecting device......... '', DetachKernelDriver 0,
        Read 0x81 1 0, Stdout (PNum 7), Read 0x81 1 0]
   \<and> fst (accept_data ((start locked_phone)\<lparr>reads := [ReadRaises KeyboardInterrupt]\<rparr>))
     = Some (Inl (USBError (Some 2) ''Entity not found''))"
  by (simp add: accept_data_def find_endpoint_def find_descriptor_def endpoint_direction_def
        ENDPOINT_IN_def start_def locked_phone_def phone_def emit_def)


lemma send_loop_first_write:
  "send_loop d (Some ep) (Inr message # later) = (res, evs) \<Longrightarrow>
   EpWrite (bEndpointAddress ep) message \<in> set evs"
  by (auto simp: split_def Let_def split: option.splits)

text \<open>
  C7, as claimed: when no endpoint of the required direction exists, the channel fails
  with an error of endpoint discovery. This fails for send mode. Discovery raises
  nothing: it yields \<open>None\<close>, and \<open>write\<close> then asks the console for a line before it
  touches the endpoint. On \<open>in_only_phone\<close>, which has no OUT endpoint, \<open>write\<close> has
  not failed as long as no line is entered (it waits at the prompt); and when the prompt
  itself raises \<open>EOFError\<close>, that is the exception that leaves \<open>write\<close>, not one about
  the endpoint.
\<close>

theorem write_without_out_endpoint_counterexample:
  "fst (write_data (start in_only_phone)) = None
   \<and> trace (snd (write_data (start in_only_phone)))
       = [GetActiveConfiguration, ConsoleInput ''[bold blue]Write: '']
   \<and> fst (write_data ((start in_only_phone)\<lparr>inputs := [Inl EOFError]\<rparr>))
       = Some (Inl EOFError)"
  by (simp add: write_data_def find_endpoint_def find_descriptor_def endpoint_direction_def
        ENDPOINT_OUT_def start_def in_only_phone_def phone_def emit_def)

text \<open>
  C7, amended: let the active configuration have a first interface \<open>i0\<close>. Every read of
  \<open>accept_data\<close> is on an endpoint of \<open>i0\<close> whose direction bit is IN, and every
  write of \<open>write\<close> on an endpoint of \<open>i0\<close> whose direction bit is OUT; when such an
  endpoint exists it is used (a read is issued; the first line entered is written), and
  an endpoint of the other direction is never used in its place. When \<open>i0\<close> has no IN
  endpoint, \<open>accept_data\<close> fails before any read, with the \<open>AttributeError\<close> of using
  \<open>None\<close> as an endpoint. When \<open>i0\<close> has no OUT endpoint, \<open>write\<close> issues no write
  at all; it fails with that \<open>AttributeError\<close> only when the first line entered is to be
  written; as long as no line is entered it waits at the prompt; and if the prompt
  raises, that exception leaves \<open>write\<close> instead.
\<close>

theorem endpoint_discovery_by_direction:
  assumes "device s = Some d" and "get_active_configuration d = Inr (i0 # rest)"
  shows "(\<forall>a n t. Read a n t \<in> set (new_events s (snd (accept_data s))) \<longrightarrow>
            endpoint_direction a = ENDPOINT_IN \<and> a \<in> bEndpointAddress ` set (endpoints i0))
       \<and> (\<forall>a m. EpWrite a m \<in> set (new_events s (snd (write_data s))) \<longrightarrow>
            endpoint_direction a = ENDPOINT_OUT \<and> a \<in> bEndpointAddress ` set (endpoints i0))
       \<and> ((\<exists>ep\<in>set (endpoints i0). endpoint_direction (bEndpointAddress ep) = ENDPOINT_IN) \<longrightarrow>
            filter is_read (new_events s (snd (accept_data s))) \<noteq> [])
       \<and> ((\<exists>ep\<in>set (endpoints i0). endpoint_direction (bEndpointAddress ep) = ENDPOINT_OUT) \<longrightarrow>
            (\<forall>message later. inputs s = Inr message # later \<longrightarrow>
               (\<exists>a. EpWrite a message \<in> set (new_events s (snd (write_data s))))))
       \<and> ((\<forall>ep\<in>set (endpoints i0). endpoint_direction (bEndpointAddress ep) \<noteq> ENDPOINT_IN) \<longrightarrow>
            fst (accept_data s) = Some (Inl AttributeError)
            \<and> new_events s (snd (accept_data s)) =
                [ConsolePrint ''[bold blue]Accepting data...'', GetActiveConfiguration])
       \<and> ((\<forall>ep\<in>set (endpoints i0). endpoint_direction (bEndpointAddress ep) \<noteq> ENDPOINT_OUT) \<longrightarrow>
            new_events s (snd (write_data s)) =
              [GetActiveConfiguration, ConsoleInput ''[bold blue]Write: '']
            \<and> (\<forall>message later. inputs s = Inr message # later \<longrightarrow>
                  fst (write_data s) = Some (Inl AttributeError))
            \<and> (\<forall>e later. inputs s = Inl e # later \<longrightarrow> fst (write_data s) = Some (Inl e))
            \<and> (inputs s = [] \<longrightarrow> fst (write_data s) = None))"
proof -
  let ?IN = "\<lambda>e. endpoint_direction (bEndpointAddress e) = ENDPOINT_IN"
  let ?OUT = "\<lambda>e. endpoint_direction (bEndpointAddress e) = ENDPOINT_OUT"
  let ?rl = "receive_loop d (List.find ?IN (endpoints i0)) (reads s)"
  let ?sl = "send_loop d (List.find ?OUT (endpoints i0)) (inputs s)"
  have eva: "new_events s (snd (accept_data s))
               = ConsolePrint ''[bold blue]Accepting data...'' # GetActiveConfiguration # snd ?rl"
    by (simp add: accept_data_closed [OF assms])
  have evw: "new_events s (snd (write_data s)) = GetActiveConfiguration # snd ?sl"
    by (simp add: write_data_closed [OF assms])
  have resa: "fst (accept_data s) = fst ?rl"
    by (simp add: accept_data_closed [OF assms])
  have resw: "fst (write_data s) = fst ?sl"
    by (simp add: write_data_closed [OF assms])
  have c1: "endpoint_direction a = ENDPOINT_IN \<and> a \<in> bEndpointAddress ` set (endpoints i0)"
    if "Read a n t \<in> set (new_events s (snd (accept_data s)))" for a n t
  proof (cases "List.find ?IN (endpoints i0)")
    case None
    with that show ?thesis
      by (simp add: eva)
  next
    case (Some ep)
    from that have "Read a n t \<in> set (snd (receive_loop d (Some ep) (reads s)))"
      by (simp add: eva Some)
    then have "Read a n t = Read (bEndpointAddress ep) 1 0"
      by (rule receive_loop_reads) simp
    with find_Some_dir [OF Some] show ?thesis
      by auto
  qed
  have c2: "endpoint_direction a = ENDPOINT_OUT \<and> a \<in> bEndpointAddress ` set (endpoints i0)"
    if "EpWrite a m \<in> set (new_events s (snd (write_data s)))" for a m
  proof (cases "List.find ?OUT (endpoints i0)")
    case None
    with that send_loop_none [of a m d "inputs s"] show ?thesis
      by (simp add: evw)
  next
    case (Some ep)
    from that have "EpWrite a m \<in> set (snd (send_loop d (Some ep) (inputs s)))"
      by (simp add: evw Some)
    then have "a = bEndpointAddress ep"
      by (rule send_loop_writes)
    with find_Some_dir [OF Some] show ?thesis
      by auto
  qed
  have c3: "filter is_read (new_events s (snd (accept_data s))) \<noteq> []"
    if "\<exists>ep\<in>set (endpoints i0). ?IN ep"
  proof -
    from that obtain ep where "List.find ?IN (endpoints i0) = Some ep"
      by (cases "List.find ?IN (endpoints i0)") (auto simp: find_None_iff)
    then show ?thesis
      using receive_loop_reads_nonempty [of d ep "reads s"] by (simp add: eva)
  qed
  have c4: "\<exists>a. EpWrite a message \<in> set (new_events s (snd (write_data s)))"
    if "\<exists>ep\<in>set (endpoints i0). ?OUT ep" and "inputs s = Inr message # later" for message later
  proof -
    from that(1) obtain ep where f: "List.find ?OUT (endpoints i0) = Some ep"
      by (cases "List.find ?OUT (endpoints i0)") (auto simp: find_None_iff)
    obtain res evs where r: "send_loop d (Some ep) (Inr message # later) = (res, evs)"
      by (cases "send_loop d (Some ep) (Inr message # later)")
    from send_loop_first_write [OF r] have "EpWrite (bEndpointAddress ep) message \<in> set evs" .
    then have "EpWrite (bEndpointAddress ep) message \<in> set (new_events s (snd (write_data s)))"
      using r by (simp add: evw f that(2))
    then show ?thesis ..
  qed
  have c5: "fst (accept_data s) = Some (Inl AttributeError)
            \<and> new_events s (snd (accept_data s)) =
                [ConsolePrint ''[bold blue]Accepting data...'', GetActiveConfiguration]"
    if "\<forall>ep\<in>set (endpoints i0). \<not> ?IN ep"
  proof -
    from that have "List.find ?IN (endpoints i0) = None"
      by (simp add: find_None_iff)
    then show ?thesis
      by (simp add: eva resa)
  qed
  have c6: "new_events s (snd (write_data s)) =
              [GetActiveConfiguration, ConsoleInput ''[bold blue]Write: '']
            \<and> (\<forall>message later. inputs s = Inr message # later \<longrightarrow>
                  fst (write_data s) = Some (Inl AttributeError))
            \<and> (\<forall>e later. inputs s = Inl e # later \<longrightarrow> fst (write_data s) = Some (Inl e))
            \<and> (inputs s = [] \<longrightarrow> fst (write_data s) = None)"
    if "\<forall>ep\<in>set (endpoints i0). \<not> ?OUT ep"
  proof -
    from that have none: "List.find ?OUT (endpoints i0) = None"
      by (simp add: find_None_iff)
    have "new_events s (snd (write_data s)) =
            [GetActiveConfiguration, ConsoleInput ''[bold blue]Write: '']"
    proof (cases "inputs s")
      case Nil
      then show ?thesis by (simp add: evw none)
    next
      case (Cons x xs)
      then show ?thesis by (cases x) (simp_all add: evw none)
    qed
    then show ?thesis
      by (auto simp: resw none)
  qed
  from c1 c2 c3 c4 have first: "(\<forall>a n t. Read a n t \<in> set (new_events s (snd (accept_data s))) \<longrightarrow>
            endpoint_direction a = ENDPOINT_IN \<and> a \<in> bEndpointAddress ` set (endpoints i0))
       \<and> (\<forall>a m. EpWrite a m \<in> set (new_events s (snd (write_data s))) \<longrightarrow>
            endpoint_direction a = ENDPOINT_OUT \<and> a \<in> bEndpointAddress ` set (endpoints i0))
       \<and> ((\<exists>ep\<in>set (endpoints i0). endpoint_direction (bEndpointAddress ep) = ENDPOINT_IN) \<longrightarrow>
            filter is_read (new_events s (snd (accept_data s))) \<noteq> [])
       \<and> ((\<exists>ep\<in>set (endpoints i0). endpoint_direction (bEndpointAddress ep) = ENDPOINT_OUT) \<longrightarrow>
            (\<forall>message later. inputs s = Inr message # later \<longrightarrow>
               (\<exists>a. EpWrite a message \<in> set (new_events s (snd (write_data s))))))"
    by blast
  from first c5 c6 show ?thesis
    by blast
qed

theorem endpoint_discovery_by_direction_witness:
  "fst (accept_data (start out_only_phone)) = Some (Inl AttributeError)
   \<and> new_events (start out_only_phone) (snd (accept_data (start out_only_phone))) =
       [ConsolePrint ''[bold blue]Accepting data...'', GetActiveConfiguration]
   \<and> fst (write_data ((start in_only_phone)\<lparr>inputs := [Inr ''hello'']\<rparr>))
       = Some (Inl AttributeError)
   \<and> new_events ((start in_only_phone)\<lparr>inputs := [Inr ''hello'']\<rparr>)
        (snd (write_data ((start in_only_phone)\<lparr>inputs := [Inr ''hello'']\<rparr>)))
       = [GetActiveConfiguration, ConsoleInput ''[bold blue]Write: '']"
proof -
  have dev: "device (start out_only_phone) = Some out_only_phone"
    by (simp add: start_def)
  have cfg: "get_active_configuration out_only_phone =
      Inr (\<lparr>bInterfaceNumber = 0, endpoints = [\<lparr>bEndpointAddress = 0x01\<rparr>]\<rparr> # [])"
    by (simp add: out_only_phone_def)
  have none: "\<forall>ep\<in>set (endpoints \<lparr>bInterfaceNumber = 0, endpoints = [\<lparr>bEndpointAddress = 0x01\<rparr>]\<rparr>).
      endpoint_direction (bEndpointAddress ep) \<noteq> ENDPOINT_IN"
    by (simp add: endpoint_direction_def ENDPOINT_IN_def)
  have recv: "fst (accept_data (start out_only_phone)) = Some (Inl AttributeError)
   \<and> new_events (start out_only_phone) (snd (accept_data (start out_only_phone))) =
       [ConsolePrint ''[bold blue]Accepting data...'', GetActiveConfiguration]"
    using endpoint_discovery_by_direction [OF dev cfg] none by blast
  let ?s = "(start in_only_phone)\<lparr>inputs := [Inr ''hello'']\<rparr>"
  have dev': "device ?s = Some in_only_phone"
    by (simp add: start_def)
  have cfg': "get_active_configuration in_only_phone =
      Inr (\<lparr>bInterfaceNumber = 0, endpoints = [\<lparr>bEndpointAddress = 0x81\<rparr>]\<rparr> # [])"
    by (simp add: in_only_phone_def)
  have none': "\<forall>ep\<in>set (endpoints \<lparr>bInterfaceNumber = 0, endpoints = [\<lparr>bEndpointAddress = 0x81\<rparr>]\<rparr>).
      endpoint_direction (bEndpointAddress ep) \<noteq> ENDPOINT_OUT"
    by (simp add: endpoint_direction_def ENDPOINT_OUT_def)
  have inp: "inputs ?s = Inr ''hello'' # []"
    by (simp add: start_def)
  have send: "fst (write_data ?s) = Some (Inl AttributeError)
   \<and> new_events ?s (snd (write_data ?s))
       = [GetActiveConfiguration, ConsoleInput ''[bold blue]Write: '']"
    using endpoint_discovery_by_direction [OF dev' cfg'] none' inp by blast
  from recv send show ?thesis
    by simp
qed

end
